theory Spec2Isabelle
  imports Complex_Main "HOL-Library.Sublist" "HOL-Library.Word"
begin

section \<open>Thermal image normalizer: model of \<^verbatim>\<open>normalizer.py\<close>\<close>

text \<open>
  The theory embeds the functions of \<^verbatim>\<open>src/ir-normalization/normalizer.py\<close>:
  \<^verbatim>\<open>lin_normalize_image\<close>, \<^verbatim>\<open>curate_files\<close>, \<^verbatim>\<open>parse_filename\<close>,
  \<^verbatim>\<open>get_scaling_values\<close>, \<^verbatim>\<open>process_file\<close> and \<^verbatim>\<open>main\<close>.

  Conventions of the model.
  \<^item> A pixel grid is a list of rows of unsigned 16-bit samples (\<open>16 word\<close>), the array
    that \<^verbatim>\<open>np.array(Image.open(in_file))\<close> gives for a 16-bit image. Arithmetic on the array
    stays in that type: \<^verbatim>\<open>image_array - bottom\<close> wraps around modulo \<open>2 ^ 16\<close>.
  \<^item> The scaling bounds are Python integers in the 16-bit range of the samples (the
    specification's \<^verbatim>\<open>ScalingBounds\<close>); the model holds them as 16-bit values. Their
    difference \<^verbatim>\<open>top - bottom\<close> is a difference of Python integers and does not wrap.
  \<^item> The float64 values that numpy computes are values of \<open>fval\<close>: a finite number, the
    two infinities or NaN. Quotient and product of finite numbers are taken exactly
    (as rationals); the rounding of float64 is not modelled.
  \<^item> An exception is a value \<open>Inl e\<close> of the result type \<open>error + 'a\<close>.
  \<^item> \<^verbatim>\<open>print\<close> appends a line to the standard output carried by the state
    (\<open>world\<close>), which also holds the shared timestamp \<^verbatim>\<open>prev_time\<close> and the file
    system. A formatted number is kept as a number in the line.
  \<^item> The file system and the image libraries (\<^verbatim>\<open>os.listdir\<close>, \<^verbatim>\<open>Image.open\<close>,
    \<^verbatim>\<open>Image.save\<close>, \<^verbatim>\<open>png.Writer\<close>) are parameters of the model (\<open>ext\<close>), and so
    are the readings of the clock and the number of cores.
  \<^item> The worker pool is modelled by the schedule that runs the tasks one after the
    other in the order of the task list, which is the order of the results that
    \<^verbatim>\<open>starmap\<close> returns.
\<close>

subsection \<open>Errors and output lines\<close>

datatype error =
    UnboundLocalError string  \<comment> \<open>a local variable read before assignment\<close>
  | ValueError string         \<comment> \<open>numpy: reduction of a zero-size array\<close>
  | ExternalError string      \<comment> \<open>any exception of the file system or of an image library\<close>

type_synonym 'a result = "error + 'a"

datatype out_line =
    Text string                 \<comment> \<open>a line of text\<close>
  | ErrorText error             \<comment> \<open>\<^verbatim>\<open>print(e)\<close> for an exception \<open>e\<close>\<close>
  | Progress int int rat rat    \<comment> \<open>index, number of inputs, seconds elapsed, seconds remaining\<close>
  | FoundFiles nat              \<comment> \<open>\<^verbatim>\<open>Found {} files for processing\<close>\<close>
  | CompletedFiles nat          \<comment> \<open>\<^verbatim>\<open>Completed converting {} files\<close>\<close>

record 'fs world =
  stdout :: "out_line list"
  prev_time :: rat
  fs :: 'fs

definition print_line :: "out_line \<Rightarrow> 'fs world \<Rightarrow> 'fs world" where
  "print_line l w = w\<lparr>stdout := stdout w @ [l]\<rparr>"

subsection \<open>numpy's float64 arithmetic, as far as the normalizer uses it\<close>

datatype fval = Fin rat | PInf | NInf | NaN

type_synonym u16 = "16 word"
type_synonym grid = "u16 list list"
type_synonym fgrid = "fval list list"

text \<open>The result of \<^verbatim>\<open>astype(np.uint8)\<close> or \<^verbatim>\<open>astype(np.uint16)\<close>: \<open>None\<close> is a sample
  whose value the cast leaves undefined (the cast of NaN).\<close>

type_synonym ugrid = "int option list list"

definition grid_map :: "('a \<Rightarrow> 'b) \<Rightarrow> 'a list list \<Rightarrow> 'b list list" where
  "grid_map f g = map (map f) g"

text \<open>\<^verbatim>\<open>x / y\<close> on an integer array and an integer: true division, where a division by
  zero gives an infinity or NaN (and a warning), not an exception.\<close>

definition np_true_divide :: "int \<Rightarrow> int \<Rightarrow> fval" where
  "np_true_divide x y =
     (if y = 0 then (if 0 < x then PInf else if x < 0 then NInf else NaN)
      else Fin (of_int x / of_int y))"

text \<open>\<^verbatim>\<open>x < c\<close> and \<^verbatim>\<open>x > c\<close>: every comparison with NaN is false.\<close>

fun fval_less :: "fval \<Rightarrow> rat \<Rightarrow> bool" where
  "fval_less (Fin r) c = (r < c)"
| "fval_less NInf c = True"
| "fval_less PInf c = False"
| "fval_less NaN c = False"

fun fval_greater :: "fval \<Rightarrow> rat \<Rightarrow> bool" where
  "fval_greater (Fin r) c = (c < r)"
| "fval_greater PInf c = True"
| "fval_greater NInf c = False"
| "fval_greater NaN c = False"

text \<open>\<^verbatim>\<open>x * c\<close> for a positive constant \<open>c\<close> (255 or 65535).\<close>

fun fval_times :: "fval \<Rightarrow> rat \<Rightarrow> fval" where
  "fval_times (Fin r) c = Fin (r * c)"
| "fval_times PInf c = PInf"
| "fval_times NInf c = NInf"
| "fval_times NaN c = NaN"

fun np_floor :: "fval \<Rightarrow> fval" where
  "np_floor (Fin r) = Fin (of_int \<lfloor>r\<rfloor>)"
| "np_floor PInf = PInf"
| "np_floor NInf = NInf"
| "np_floor NaN = NaN"

text \<open>\<^verbatim>\<open>astype\<close> to an unsigned type of \<open>d\<close> bits: defined on the finite values in range.\<close>

fun astype_uint :: "nat \<Rightarrow> fval \<Rightarrow> int option" where
  "astype_uint d (Fin r) = (if 0 \<le> r \<and> r < 2 ^ d then Some \<lfloor>r\<rfloor> else None)"
| "astype_uint d PInf = None"
| "astype_uint d NInf = None"
| "astype_uint d NaN = None"

definition np_min :: "grid \<Rightarrow> u16 result" where
  "np_min g =
     (case concat g of
        [] \<Rightarrow> Inl (ValueError ''zero-size array to reduction operation minimum which has no identity'')
      | v # vs \<Rightarrow> Inr (fold min vs v))"

definition np_max :: "grid \<Rightarrow> u16 result" where
  "np_max g =
     (case concat g of
        [] \<Rightarrow> Inl (ValueError ''zero-size array to reduction operation maximum which has no identity'')
      | v # vs \<Rightarrow> Inr (fold max vs v))"

subsection \<open>\<^verbatim>\<open>lin_normalize_image\<close>\<close>

text \<open>The array statements of the function body, one definition each.\<close>

text \<open>\<^verbatim>\<open>top - bottom\<close>. Two bounds given by the caller are Python integers, and their
  difference is exact. A bound that was omitted is the \<^verbatim>\<open>np.uint16\<close> scalar that \<^verbatim>\<open>np.min\<close>
  or \<^verbatim>\<open>np.max\<close> returns, and the difference is then taken on 16 bits (as numpy 2 does
  for a \<^verbatim>\<open>np.uint16\<close> scalar and a Python integer).\<close>

definition bounds_difference :: "bool \<Rightarrow> u16 \<Rightarrow> u16 \<Rightarrow> int" where
  "bounds_difference explicit bottom topv =
     (if explicit then uint topv - uint bottom else uint (topv - bottom))"

definition scale_step :: "u16 \<Rightarrow> int \<Rightarrow> grid \<Rightarrow> fgrid" where
  \<comment> \<open>\<^verbatim>\<open>scaled_image = (image_array - bottom) / (top - bottom)\<close>: the difference
      \<^verbatim>\<open>image_array - bottom\<close> is an unsigned 16-bit array and wraps around\<close>
  "scale_step bottom difference g = grid_map (\<lambda>v. np_true_divide (uint (v - bottom)) difference) g"

definition clip_low_step :: "fgrid \<Rightarrow> fgrid" where
  \<comment> \<open>\<^verbatim>\<open>scaled_image[scaled_image < 0] = 0\<close>\<close>
  "clip_low_step g = grid_map (\<lambda>x. if fval_less x 0 then Fin 0 else x) g"

definition clip_high_step :: "fgrid \<Rightarrow> fgrid" where
  \<comment> \<open>\<^verbatim>\<open>scaled_image[scaled_image > 1] = 1\<close>\<close>
  "clip_high_step g = grid_map (\<lambda>x. if fval_greater x 1 then Fin 1 else x) g"

definition quantize_step :: "bool \<Rightarrow> fgrid \<Rightarrow> ugrid" where
  \<comment> \<open>\<^verbatim>\<open>np.floor(scaled_image * 255).astype(np.uint8)\<close>, or 65535 and \<^verbatim>\<open>np.uint16\<close>\<close>
  "quantize_step bit_8 g =
     (if bit_8 then grid_map (\<lambda>x. astype_uint 8 (np_floor (fval_times x 255))) g
      else grid_map (\<lambda>x. astype_uint 16 (np_floor (fval_times x 65535))) g)"

definition lin_normalize_image :: "grid \<Rightarrow> bool \<Rightarrow> u16 option \<Rightarrow> u16 option \<Rightarrow> ugrid result" where
  "lin_normalize_image image_array bit_8 bottom topv =
     (case (case bottom of None \<Rightarrow> np_min image_array | Some v \<Rightarrow> Inr v) of
        Inl e \<Rightarrow> Inl e
      | Inr b \<Rightarrow>
          (case (case topv of None \<Rightarrow> np_max image_array | Some v \<Rightarrow> Inr v) of
             Inl e \<Rightarrow> Inl e
           | Inr t \<Rightarrow>
               Inr (quantize_step bit_8
                      (clip_high_step (clip_low_step
                         (scale_step b
                            (bounds_difference (bottom \<noteq> None \<and> topv \<noteq> None) b t)
                            image_array))))))"

subsection \<open>Strings and paths\<close>

text \<open>\<^verbatim>\<open>s.find(sub)\<close>: the lowest index where \<open>sub\<close> occurs in \<open>s\<close>, or \<open>-1\<close>.\<close>

fun find_from :: "nat \<Rightarrow> string \<Rightarrow> string \<Rightarrow> int" where
  "find_from i [] sub = (if sub = [] then int i else - 1)"
| "find_from i (c # cs) sub = (if prefix sub (c # cs) then int i else find_from (Suc i) cs sub)"

definition str_find :: "string \<Rightarrow> string \<Rightarrow> int" where
  "str_find s sub = find_from 0 s sub"

text \<open>\<^verbatim>\<open>s.replace(old, new)\<close>: every occurrence of \<open>old\<close>, found from left to right
  without overlap, is replaced by \<open>new\<close>.\<close>

function str_replace :: "string \<Rightarrow> string \<Rightarrow> string \<Rightarrow> string" where
  "str_replace [] old new = (if old = [] then new else [])"
| "str_replace (c # cs) old new =
     (if old = [] then new @ c # str_replace cs old new
      else if prefix old (c # cs) then new @ str_replace (drop (length old) (c # cs)) old new
      else c # str_replace cs old new)"
  by pat_completeness auto
termination
  by (relation "measure (\<lambda>(s, old, new). length s)") auto

text \<open>\<^verbatim>\<open>s.split(sep)\<close> for a separator of one character.\<close>

fun str_split :: "string \<Rightarrow> char \<Rightarrow> string list" where
  "str_split [] sep = [[]]"
| "str_split (c # cs) sep =
     (if c = sep then [] # str_split cs sep
      else (case str_split cs sep of [] \<Rightarrow> [[c]] | t # ts \<Rightarrow> (c # t) # ts))"

text \<open>\<^verbatim>\<open>os.path.basename\<close> and \<^verbatim>\<open>os.path.join\<close> of two components, as in \<^verbatim>\<open>posixpath\<close>.\<close>

definition basename :: "string \<Rightarrow> string" where
  "basename p = rev (takeWhile (\<lambda>c. c \<noteq> CHR ''/'') (rev p))"

definition os_path_join :: "string \<Rightarrow> string \<Rightarrow> string" where
  "os_path_join a b =
     (if prefix ''/'' b then b
      else if a = [] \<or> suffix ''/'' a then a @ b
      else a @ ''/'' @ b)"

subsection \<open>The external collaborators\<close>

record 'fs ext =
  listdir :: "string \<Rightarrow> 'fs \<Rightarrow> string list result"
    \<comment> \<open>\<^verbatim>\<open>os.listdir(input_directory)\<close>\<close>
  image_open :: "string \<Rightarrow> 'fs \<Rightarrow> grid result"
    \<comment> \<open>\<^verbatim>\<open>np.array(Image.open(in_file))\<close>\<close>
  image_save :: "bool \<Rightarrow> string \<Rightarrow> ugrid \<Rightarrow> 'fs \<Rightarrow> unit result \<times> 'fs"
    \<comment> \<open>the saving of the normalized array: with \<^verbatim>\<open>Image.fromarray\<close> and \<^verbatim>\<open>save\<close>
        in 8-bit mode, with \<^verbatim>\<open>open\<close> and \<^verbatim>\<open>png.Writer\<close> otherwise\<close>

subsection \<open>\<^verbatim>\<open>curate_files\<close>\<close>

definition curate_files ::
  "'fs ext \<Rightarrow> string \<Rightarrow> string \<Rightarrow> bool \<Rightarrow> 'fs \<Rightarrow> (string list \<times> string list) result" where
  "curate_files e input_directory output_directory bit_8 fsys =
     (case listdir e input_directory fsys of
        Inl err \<Rightarrow> Inl err
      | Inr all_files \<Rightarrow>
          (let input_files = filter (\<lambda>x. str_find x ''16BIT.PNG'' \<noteq> - 1) all_files;
               output_files =
                 (if bit_8 then map (\<lambda>x. str_replace x ''16BIT'' ''8BIT-N'') input_files
                  else map (\<lambda>x. str_replace x ''16BIT.'' ''16BIT-N.'') input_files)
           in Inr (map (os_path_join input_directory) input_files,
                   map (os_path_join output_directory) output_files)))"

subsection \<open>\<^verbatim>\<open>parse_filename\<close> and \<^verbatim>\<open>get_scaling_values\<close>\<close>

text \<open>The \<^verbatim>\<open>for\<close> loop of \<^verbatim>\<open>parse_filename\<close>: the first token that is a camera position,
  \<open>None\<close> when the loop ends without \<^verbatim>\<open>break\<close>.\<close>

fun first_camera_token :: "string list \<Rightarrow> string option" where
  "first_camera_token [] = None"
| "first_camera_token (token # tokens) =
     (if token = ''P'' \<or> token = ''C'' \<or> token = ''S'' then Some token
      else first_camera_token tokens)"

text \<open>When the loop ends without \<^verbatim>\<open>break\<close>, the \<^verbatim>\<open>else\<close> branch prints the warning and
  \<^verbatim>\<open>camera_pos\<close> has no value: \<^verbatim>\<open>return camera_pos\<close> raises \<^verbatim>\<open>UnboundLocalError\<close>.\<close>

definition parse_filename :: "string \<Rightarrow> 'fs world \<Rightarrow> string result \<times> 'fs world" where
  "parse_filename filename w =
     (let tokens = str_split (basename filename) CHR ''_'' in
      case first_camera_token tokens of
        Some camera_pos \<Rightarrow> (Inr camera_pos, w)
      | None \<Rightarrow>
          (Inl (UnboundLocalError ''camera_pos''),
           print_line (Text (''Warning: Bad filename format '' @ filename)) w))"

definition get_scaling_values ::
  "string \<Rightarrow> int \<Rightarrow> 'fs world \<Rightarrow> (u16 \<times> u16) result \<times> 'fs world" where
  "get_scaling_values filename num_rows w =
     (case parse_filename filename w of
        (Inl err, w1) \<Rightarrow> (Inl err, w1)
      | (Inr camera_pos, w1) \<Rightarrow>
          (if camera_pos = ''P'' then
             (if num_rows = 512 then (Inr (53500, 56500), w1)
              else if num_rows = 480 then (Inr (50500, 58500), w1)
              else (Inr (51000, 57500),
                    print_line (Text (''Unknown camera size for file '' @ filename)) w1))
           else if camera_pos = ''C'' then (Inr (50500, 58500), w1)
           else (Inr (51000, 57500), w1)))"

subsection \<open>\<^verbatim>\<open>process_file\<close>\<close>

text \<open>The body of the \<^verbatim>\<open>try\<close> statement: load, resolve the bounds, normalize, save.\<close>

definition process_file_try ::
  "'fs ext \<Rightarrow> bool \<Rightarrow> string \<Rightarrow> string \<Rightarrow> 'fs world \<Rightarrow> unit result \<times> 'fs world" where
  "process_file_try e bit_8 in_file output_file w =
     (case image_open e in_file (fs w) of
        Inl err \<Rightarrow> (Inl err, w)
      | Inr cur_data \<Rightarrow>
          (case get_scaling_values in_file (int (length cur_data)) w of
             (Inl err, w1) \<Rightarrow> (Inl err, w1)
           | (Inr (bottom, topv), w1) \<Rightarrow>
               (case lin_normalize_image cur_data bit_8 (Some bottom) (Some topv) of
                  Inl err \<Rightarrow> (Inl err, w1)
                | Inr normalized \<Rightarrow>
                    (case image_save e bit_8 output_file normalized (fs w1) of
                       (r, fsys) \<Rightarrow> (r, w1\<lparr>fs := fsys\<rparr>)))))"

text \<open>The telemetry before the \<^verbatim>\<open>try\<close> statement, for every 1000th index; \<open>cur_time\<close> is
  the reading of \<^verbatim>\<open>time.time()\<close>. These statements are outside the \<^verbatim>\<open>try\<close>; the model
  takes them not to raise (the lock is acquired, the estimate fits a \<^verbatim>\<open>timedelta\<close>).\<close>

definition report_progress :: "rat \<Rightarrow> int \<Rightarrow> int \<Rightarrow> 'fs world \<Rightarrow> 'fs world" where
  "report_progress cur_time len_inputs index w =
     (if index mod 1000 = 0 then
        (let time_diff = cur_time - prev_time w;
             time_est_sec = time_diff * of_int (len_inputs - index) / 1000
         in (print_line (Progress index len_inputs time_diff time_est_sec) w)
              \<lparr>prev_time := cur_time\<rparr>)
      else w)"

definition process_file ::
  "'fs ext \<Rightarrow> rat \<Rightarrow> int \<Rightarrow> bool \<Rightarrow> string \<Rightarrow> string \<Rightarrow> int \<Rightarrow> 'fs world \<Rightarrow> bool \<times> 'fs world" where
  "process_file e cur_time len_inputs bit_8 in_file output_file index w =
     (case process_file_try e bit_8 in_file output_file
             (report_progress cur_time len_inputs index w) of
        (Inr u, w1) \<Rightarrow> (True, w1)
      | (Inl err, w1) \<Rightarrow>
          (False, print_line (Text (''Unable to load '' @ in_file)) (print_line (ErrorText err) w1)))"

subsection \<open>\<^verbatim>\<open>main\<close>\<close>

text \<open>\<^verbatim>\<open>cpu_count() - 1 or 1\<close>\<close>

definition num_workers :: "int \<Rightarrow> int" where
  "num_workers cpu_count = (if cpu_count - 1 \<noteq> 0 then cpu_count - 1 else 1)"

text \<open>The argument list of \<^verbatim>\<open>starmap\<close>: one task for each input file, with the output file
  at the same index.\<close>

definition task_list :: "string list \<Rightarrow> string list \<Rightarrow> (string \<times> string \<times> int) list" where
  "task_list input_files output_files =
     map (\<lambda>(index, in_file). (in_file, output_files ! index, int index)) (enumerate 0 input_files)"

text \<open>\<^verbatim>\<open>pool.starmap\<close>, the tasks run in the order of the list.\<close>

fun starmap :: "('t \<Rightarrow> 'w \<Rightarrow> bool \<times> 'w) \<Rightarrow> 't list \<Rightarrow> 'w \<Rightarrow> bool list \<times> 'w" where
  "starmap f [] w = ([], w)"
| "starmap f (t # ts) w =
     (case f t w of (r, w1) \<Rightarrow> (case starmap f ts w1 of (rs, w2) \<Rightarrow> (r # rs, w2)))"

text \<open>\<^verbatim>\<open>with Pool(num_workers) as pool: results = pool.starmap(...)\<close>. The constructor
  of the pool raises \<^verbatim>\<open>ValueError\<close> when the number of processes is less than 1.\<close>

definition pool_starmap ::
  "int \<Rightarrow> ('t \<Rightarrow> 'w \<Rightarrow> bool \<times> 'w) \<Rightarrow> 't list \<Rightarrow> 'w \<Rightarrow> bool list result \<times> 'w" where
  "pool_starmap processes f tasks w =
     (if processes < 1 then (Inl (ValueError ''Number of processes must be at least 1''), w)
      else (case starmap f tasks w of (results, w1) \<Rightarrow> (Inr results, w1)))"

text \<open>\<^verbatim>\<open>main\<close>, after \<^verbatim>\<open>parse_arguments\<close> has given the two directories and \<^verbatim>\<open>bit_8\<close>.
  \<open>cpu_count\<close> is the value of \<^verbatim>\<open>cpu_count()\<close>, \<open>start_time\<close> the reading of the clock
  in \<^verbatim>\<open>main\<close>, and \<open>clock index\<close> the reading in the task of that index.
  The first definition is \<^verbatim>\<open>main\<close> up to the end of the \<^verbatim>\<open>with\<close> statement and gives the
  list \<^verbatim>\<open>results\<close>; the second adds the two last lines of output.\<close>

definition main_results ::
  "'fs ext \<Rightarrow> int \<Rightarrow> rat \<Rightarrow> (int \<Rightarrow> rat) \<Rightarrow> string \<Rightarrow> string \<Rightarrow> bool \<Rightarrow> 'fs world
     \<Rightarrow> bool list result \<times> 'fs world" where
  "main_results e cpu_count start_time clock input_directory output_directory bit_8 w =
     (let w1 = print_line (Text (''bit_8: '' @ (if bit_8 then ''True'' else ''False'')))
                 (print_line (Text (''Output directory: '' @ output_directory))
                    (print_line (Text (''Input directory: '' @ input_directory)) w))
      in case curate_files e input_directory output_directory bit_8 (fs w1) of
           Inl err \<Rightarrow> (Inl err, w1)
         | Inr (input_files, output_files) \<Rightarrow>
             (let w2 = (print_line (FoundFiles (length input_files)) w1)\<lparr>prev_time := start_time\<rparr>
              in pool_starmap (num_workers cpu_count)
                   (\<lambda>(in_file, output_file, index).
                       process_file e (clock index) (int (length input_files)) bit_8
                         in_file output_file index)
                   (task_list input_files output_files) w2))"

definition main ::
  "'fs ext \<Rightarrow> int \<Rightarrow> rat \<Rightarrow> (int \<Rightarrow> rat) \<Rightarrow> string \<Rightarrow> string \<Rightarrow> bool \<Rightarrow> 'fs world
     \<Rightarrow> unit result \<times> 'fs world" where
  "main e cpu_count start_time clock input_directory output_directory bit_8 w =
     (case main_results e cpu_count start_time clock input_directory output_directory bit_8 w of
        (Inl err, w3) \<Rightarrow> (Inl err, w3)
      | (Inr results, w3) \<Rightarrow>
          (Inr (),
           print_line (CompletedFiles (length (filter (\<lambda>x. x) results)))
             (print_line (Text ''Done!'') w3)))"

subsection \<open>The normalizer as the specification words it\<close>

text \<open>Section 4.2 of the specification: for every sample \<open>v\<close>, compute
  \<^verbatim>\<open>s = (v - bottom) / (top - bottom)\<close>, clip \<open>s\<close> to \<open>[0, 1]\<close>, and quantize to
  \<open>floor (s * (2 ^ d - 1))\<close>, where \<open>d\<close> is the target bit depth.\<close>

definition bit_depth :: "bool \<Rightarrow> nat" where
  "bit_depth bit_8 = (if bit_8 then 8 else 16)"

definition spec_clip :: "rat \<Rightarrow> rat" where
  "spec_clip s = max 0 (min 1 s)"

definition spec_normalize :: "nat \<Rightarrow> int \<Rightarrow> int \<Rightarrow> int \<Rightarrow> int" where
  "spec_normalize d bottom topv v =
     \<lfloor>spec_clip (of_int (v - bottom) / of_int (topv - bottom)) * (2 ^ d - 1)\<rfloor>"

subsection \<open>The normalizer, sample by sample\<close>

text \<open>The steps of \<^verbatim>\<open>lin_normalize_image\<close> on one sample.\<close>

definition norm_sample :: "bool \<Rightarrow> u16 \<Rightarrow> u16 \<Rightarrow> u16 \<Rightarrow> int option" where
  "norm_sample bit_8 bottom topv v =
     (let x = np_true_divide (uint (v - bottom)) (uint topv - uint bottom);
          y = (if fval_less x 0 then Fin 0 else x);
          z = (if fval_greater y 1 then Fin 1 else y)
      in if bit_8 then astype_uint 8 (np_floor (fval_times z 255))
         else astype_uint 16 (np_floor (fval_times z 65535)))"

subsection \<open>Concrete collaborators for the scenarios\<close>

text \<open>A directory with the given entries, none of which is a readable image.\<close>

definition listing_ext :: "string list \<Rightarrow> unit ext" where
  "listing_ext names =
     \<lparr>listdir = (\<lambda>d f. Inr names),
      image_open = (\<lambda>p f. Inl (ExternalError ''cannot identify image file'')),
      image_save = (\<lambda>b p g f. (Inr (), f))\<rparr>"

text \<open>The batch scenario of the specification: five entries match \<^verbatim>\<open>16BIT.PNG\<close>, one of
  them cannot be read; every other one holds one row of two samples, and every save
  succeeds.\<close>

definition batch_ext :: "unit ext" where
  "batch_ext =
     \<lparr>listdir = (\<lambda>d f. Inr [''a_C_1_16BIT.PNG'', ''b_C_2_16BIT.PNG'', ''readme.txt'',
                              ''c_C_3_16BIT.PNG'', ''d_S_4_16BIT.PNG'', ''e_C_5_16BIT.PNG'']),
      image_open = (\<lambda>p f. if p = ''in/c_C_3_16BIT.PNG''
                            then Inl (ExternalError ''cannot identify image file'')
                            else Inr [[50500, 58500]]),
      image_save = (\<lambda>b p g f. (Inr (), f))\<rparr>"

definition world0 :: "unit world" where
  "world0 = \<lparr>stdout = [], prev_time = 0, fs = ()\<rparr>"

section \<open>Properties\<close>

subsection \<open>The normalizer\<close>

lemma lin_normalize_image_explicit:
  "lin_normalize_image g bit_8 (Some bottom) (Some topv) =
     Inr (grid_map (norm_sample bit_8 bottom topv) g)"
  by (simp add: lin_normalize_image_def bounds_difference_def quantize_step_def
      clip_high_step_def clip_low_step_def scale_step_def grid_map_def norm_sample_def
      Let_def comp_def)

lemma spec_clip_bounds: "0 \<le> spec_clip s" "spec_clip s \<le> 1"
  by (simp_all add: spec_clip_def)

lemma spec_clip_low: "s \<le> 0 \<Longrightarrow> spec_clip s = 0"
  by (auto simp: spec_clip_def min_def max_def)

lemma spec_clip_high: "1 \<le> s \<Longrightarrow> spec_clip s = 1"
  by (auto simp: spec_clip_def min_def max_def)

lemma floor_depth_max: "\<lfloor>(2::rat) ^ d - 1\<rfloor> = 2 ^ d - 1"
  by (metis floor_of_int of_int_1 of_int_diff of_int_numeral of_int_power)

text \<open>The steps on one sample: the quotient of the wrapped difference by the difference of
  the bounds, clipped and quantized.\<close>

lemma norm_sample_quotient:
  assumes "bottom \<noteq> topv"
  shows "norm_sample bit_8 bottom topv v =
     Some \<lfloor>spec_clip (of_int (uint (v - bottom)) / of_int (uint topv - uint bottom))
            * (2 ^ bit_depth bit_8 - 1)\<rfloor>"
proof -
  define s :: rat where "s = of_int (uint (v - bottom)) / of_int (uint topv - uint bottom)"
  have "uint topv - uint bottom \<noteq> 0"
    using assms by (simp add: word_uint_eq_iff)
  then have d: "np_true_divide (uint (v - bottom)) (uint topv - uint bottom) = Fin s"
    by (simp add: np_true_divide_def s_def)
  have c: "0 \<le> spec_clip s" "spec_clip s \<le> 1"
    by (simp_all add: spec_clip_def)
  have z: "(if fval_greater (if fval_less (Fin s) 0 then Fin 0 else Fin s) 1 then Fin 1
            else (if fval_less (Fin s) 0 then Fin 0 else Fin s)) = Fin (spec_clip s)"
    by (auto simp: spec_clip_def min_def max_def)
  have b8: "spec_clip s * 255 < 2 ^ 8" "0 \<le> spec_clip s * 255"
    using c by simp_all
  have b16: "spec_clip s * 65535 < 2 ^ 16" "0 \<le> spec_clip s * 65535"
    using c by simp_all
  have f8: "\<lfloor>spec_clip s * 255\<rfloor> < 2 ^ 8" "0 \<le> \<lfloor>spec_clip s * 255\<rfloor>"
    using b8 by (simp_all add: floor_less_iff)
  have f16: "\<lfloor>spec_clip s * 65535\<rfloor> < 2 ^ 16" "0 \<le> \<lfloor>spec_clip s * 65535\<rfloor>"
    using b16 by (simp_all add: floor_less_iff)
  have "norm_sample bit_8 bottom topv v = Some \<lfloor>spec_clip s * (2 ^ bit_depth bit_8 - 1)\<rfloor>"
    unfolding norm_sample_def Let_def d z
    using f8 f16 by (simp add: bit_depth_def)
  then show ?thesis
    by (simp only: s_def)
qed

text \<open>Where the difference does not wrap, the code computes the formula of the
  specification.\<close>

lemma norm_sample_no_wrap:
  assumes "bottom \<noteq> topv" and "bottom \<le> v"
  shows "norm_sample bit_8 bottom topv v =
     Some (spec_normalize (bit_depth bit_8) (uint bottom) (uint topv) (uint v))"
proof -
  have "uint (v - bottom) = uint v - uint bottom"
    using assms(2) by (simp add: uint_sub_if' word_le_def)
  then show ?thesis
    by (simp only: norm_sample_quotient [OF assms(1)] spec_normalize_def)
qed

text \<open>A sample below \<open>bottom\<close>: the difference wraps around to a number that is at least
  \<open>top - bottom\<close>, the quotient is at least 1, and the sample becomes \<open>2 ^ d - 1\<close>; the
  assignment \<^verbatim>\<open>scaled_image[scaled_image < 0] = 0\<close> finds nothing to clip.\<close>

lemma norm_sample_wraps:
  assumes "bottom < topv" and "v < bottom"
  shows "norm_sample bit_8 bottom topv v = Some (2 ^ bit_depth bit_8 - 1)"
proof -
  have ne: "bottom \<noteq> topv" using assms(1) by auto
  have w: "uint (v - bottom) = uint v - uint bottom + 65536"
    using assms(2) by (simp add: uint_sub_if' word_less_def)
  have t: "uint topv < 65536" using uint_lt2p [of topv] by simp
  have p: "0 < uint topv - uint bottom" using assms(1) by (simp add: word_less_def)
  have "uint topv - uint bottom \<le> uint (v - bottom)"
    using w t uint_ge_0 [of v] by linarith
  then have "(of_int (uint topv - uint bottom) :: rat) \<le> of_int (uint (v - bottom))"
    by (simp only: of_int_le_iff)
  then have "1 \<le> (of_int (uint (v - bottom)) :: rat) / of_int (uint topv - uint bottom)"
    using p by (simp add: le_divide_eq del: of_int_diff)
  then have "spec_clip (of_int (uint (v - bottom)) / of_int (uint topv - uint bottom)) = 1"
    by (rule spec_clip_high)
  then show ?thesis
    by (simp add: norm_sample_quotient [OF ne] floor_depth_max del: of_int_diff)
qed

lemma spec_normalize_low:
  assumes "bottom < topv" "v \<le> bottom"
  shows "spec_normalize d bottom topv v = 0"
proof -
  have "(of_int (v - bottom) :: rat) / of_int (topv - bottom) \<le> 0"
    using assms by (simp add: divide_le_0_iff)
  then show ?thesis
    by (simp add: spec_normalize_def spec_clip_low del: of_int_diff)
qed

text \<open>With equal bounds the division is by zero: a sample different from the bound
  gives \<open>+inf\<close>, the bound itself gives NaN.\<close>

lemma norm_sample_degenerate:
  "norm_sample bit_8 bottom bottom v =
     (if v = bottom then None else Some (2 ^ bit_depth bit_8 - 1))"
proof (cases "v = bottom")
  case True
  then show ?thesis
    by (simp add: norm_sample_def np_true_divide_def)
next
  case False
  then have "v - bottom \<noteq> 0" by simp
  then have "uint (v - bottom) \<noteq> 0" by (simp add: uint_0_iff)
  then have "0 < uint (v - bottom)" using uint_ge_0 [of "v - bottom"] by linarith
  then show ?thesis
    using False by (simp add: norm_sample_def np_true_divide_def bit_depth_def)
qed

lemma grid_map_length: "length (grid_map f g) = length g"
  by (simp add: grid_map_def)

lemma grid_map_row_length: "i < length g \<Longrightarrow> length (grid_map f g ! i) = length (g ! i)"
  by (simp add: grid_map_def)

lemma grid_map_nth:
  "i < length g \<Longrightarrow> j < length (g ! i) \<Longrightarrow> grid_map f g ! i ! j = f (g ! i ! j)"
  by (simp add: grid_map_def)

subsection \<open>C1: the formula of the linear normalizer\<close>

text \<open>
  Claim C1 states that for bounds with \<open>bottom < top\<close> every output sample is
  \<open>floor (clip ((v - bottom) / (top - bottom)) 0 1 * (2 ^ d - 1))\<close>, so that a sample
  below \<open>bottom\<close> becomes 0. The code computes \<^verbatim>\<open>image_array - bottom\<close> in the unsigned
  16-bit type of the array, where the difference of a sample below \<open>bottom\<close> wraps
  around: the sample becomes \<open>2 ^ d - 1\<close>, and the statement that clips negative values
  to 0 never applies. The theorem evaluates the code on the row 50000, 53500, 56500
  with the bounds of camera P at 512 rows and 8-bit output: the sample 50000 becomes
  255, where the formula of the specification gives 0.
\<close>

theorem lin_normalize_image_below_bottom:
  "lin_normalize_image [[50000, 53500, 56500]] True (Some 53500) (Some 56500)
     = Inr [[Some 255, Some 0, Some 255]]
   \<and> spec_normalize (bit_depth True) 53500 56500 50000 = 0"
proof -
  have "norm_sample True 53500 56500 50000 = Some 255"
    using norm_sample_wraps [of 53500 56500 50000 True] by (simp add: bit_depth_def)
  moreover have "norm_sample True 53500 56500 53500 = Some 0"
    using norm_sample_no_wrap [of 53500 56500 53500 True]
    by (simp add: spec_normalize_def spec_clip_def)
  moreover have "norm_sample True 53500 56500 56500 = Some 255"
    using norm_sample_no_wrap [of 53500 56500 56500 True]
    by (simp add: spec_normalize_def spec_clip_def bit_depth_def)
  moreover have "spec_normalize (bit_depth True) 53500 56500 50000 = 0"
    by (rule spec_normalize_low) simp_all
  ultimately show ?thesis
    by (simp add: lin_normalize_image_explicit grid_map_def)
qed

subsection \<open>C10: the shape of the grid\<close>

text \<open>
  Claim C10. \<^verbatim>\<open>lin_normalize_image\<close> preserves the shape of its input: for every grid and
  bounds with \<open>bottom \<noteq> top\<close>, the returned grid has the rows and the columns of the
  input grid, and every element has been given a value.
\<close>

theorem lin_normalize_image_shape:
  assumes "bottom \<noteq> topv"
  shows "\<exists>out. lin_normalize_image g bit_8 (Some bottom) (Some topv) = Inr out
           \<and> length out = length g
           \<and> map length out = map length g
           \<and> (\<forall>i<length g. \<forall>j<length (g ! i). \<exists>y. out ! i ! j = Some y)"
proof (intro exI conjI allI impI)
  let ?f = "norm_sample bit_8 bottom topv"
  show "lin_normalize_image g bit_8 (Some bottom) (Some topv) = Inr (grid_map ?f g)"
    by (rule lin_normalize_image_explicit)
  show "length (grid_map ?f g) = length g"
    by (rule grid_map_length)
  show "map length (grid_map ?f g) = map length g"
    by (simp add: grid_map_def comp_def)
  fix i j assume "i < length g" "j < length (g ! i)"
  then show "grid_map ?f g ! i ! j
      = Some \<lfloor>spec_clip (of_int (uint (g ! i ! j - bottom)) / of_int (uint topv - uint bottom))
               * (2 ^ bit_depth bit_8 - 1)\<rfloor>"
    by (simp only: grid_map_nth norm_sample_quotient [OF assms])
qed

theorem lin_normalize_image_shape_witness:
  "(0::u16) \<noteq> 10
   \<and> (\<exists>out. lin_normalize_image [[1, 2, 3], [4, 5, 6]] False (Some 0) (Some 10) = Inr out
          \<and> length out = 2 \<and> map length out = [3, 3])"
proof -
  have h: "(0::u16) \<noteq> 10" by simp
  show ?thesis
    using h lin_normalize_image_shape [OF h, of "[[1, 2, 3], [4, 5, 6]]" False] by auto
qed

subsection \<open>C6: monotonicity\<close>

text \<open>
  Claim C6 states that for bounds with \<open>bottom < top\<close> the output is monotone in the
  sample. By the wrap-around of \<^verbatim>\<open>image_array - bottom\<close> described for claim C1, a
  sample below \<open>bottom\<close> becomes \<open>2 ^ d - 1\<close> while \<open>bottom\<close> itself becomes 0. The theorem
  evaluates the code on the row 50000, 53500 with the bounds 53500 and 56500 and 16-bit
  output: the smaller sample gets the larger output.
\<close>

theorem lin_normalize_image_not_monotone:
  "lin_normalize_image [[50000, 53500]] False (Some 53500) (Some 56500)
     = Inr [[Some 65535, Some 0]]
   \<and> (50000::u16) \<le> 53500 \<and> \<not> (65535::int) \<le> 0"
proof -
  have "norm_sample False 53500 56500 50000 = Some 65535"
    using norm_sample_wraps [of 53500 56500 50000 False] by (simp add: bit_depth_def)
  moreover have "norm_sample False 53500 56500 53500 = Some 0"
    using norm_sample_no_wrap [of 53500 56500 53500 False]
    by (simp add: spec_normalize_def spec_clip_def)
  ultimately show ?thesis
    by (simp add: lin_normalize_image_explicit grid_map_def)
qed

subsection \<open>C2: equal bounds\<close>

text \<open>
  Claim C2 states that for \<open>top = bottom\<close> the normalizer raises \<open>InvalidBoundsError\<close>.
  The function has no such check: numpy divides by zero without an exception, and the
  function returns a grid. At the input below the sample equal to the bound is NaN,
  whose cast to an unsigned integer has no defined value.
\<close>

theorem lin_normalize_image_equal_bounds_counterexample:
  "lin_normalize_image [[7, 8, 6]] True (Some 7) (Some 7) = Inr [[None, Some 255, Some 255]]"
  by (simp add: lin_normalize_image_explicit grid_map_def norm_sample_degenerate bit_depth_def)

text \<open>
  Claim C2 as amended. For every grid and bounds with \<open>top = bottom\<close>,
  \<^verbatim>\<open>lin_normalize_image\<close> raises no error: it returns a grid of the shape of the input
  in which a sample above the bound is \<open>2 ^ d - 1\<close> and a sample equal to the bound has
  no defined value.
\<close>

theorem lin_normalize_image_equal_bounds:
  assumes "topv = bottom"
  shows "\<exists>out. lin_normalize_image g bit_8 (Some bottom) (Some topv) = Inr out
           \<and> length out = length g
           \<and> map length out = map length g
           \<and> (\<forall>i<length g. \<forall>j<length (g ! i).
                 (bottom < g ! i ! j \<longrightarrow> out ! i ! j = Some (2 ^ bit_depth bit_8 - 1))
                 \<and> (g ! i ! j = bottom \<longrightarrow> out ! i ! j = None))"
proof (intro exI conjI allI impI)
  let ?f = "norm_sample bit_8 bottom bottom"
  show "lin_normalize_image g bit_8 (Some bottom) (Some topv) = Inr (grid_map ?f g)"
    unfolding assms by (rule lin_normalize_image_explicit)
  show "length (grid_map ?f g) = length g"
    by (rule grid_map_length)
  show "map length (grid_map ?f g) = map length g"
    by (simp add: grid_map_def comp_def)
  fix i j assume ij: "i < length g" "j < length (g ! i)"
  show "grid_map ?f g ! i ! j = Some (2 ^ bit_depth bit_8 - 1)" if "bottom < g ! i ! j"
    using that ij by (auto simp: grid_map_nth norm_sample_degenerate)
  show "grid_map ?f g ! i ! j = None" if "g ! i ! j = bottom"
    using that ij by (simp add: grid_map_nth norm_sample_degenerate)
qed

theorem lin_normalize_image_equal_bounds_witness:
  "(7::u16) = 7
   \<and> (\<exists>out. lin_normalize_image [[7, 8, 6]] False (Some 7) (Some 7) = Inr out
          \<and> length out = 1 \<and> out ! 0 ! 0 = None \<and> out ! 0 ! 1 = Some 65535)"
proof -
  let ?g = "[[7, 8, 6 :: u16]]"
  have h: "(7::u16) = 7" by simp
  from lin_normalize_image_equal_bounds [OF h, of ?g False]
  obtain out where r: "lin_normalize_image ?g False (Some 7) (Some 7) = Inr out"
    and l: "length out = length ?g"
    and c: "\<forall>i<length ?g. \<forall>j<length (?g ! i).
                 (7 < ?g ! i ! j \<longrightarrow> out ! i ! j = Some (2 ^ bit_depth False - 1))
                 \<and> (?g ! i ! j = 7 \<longrightarrow> out ! i ! j = None)"
    by (elim exE conjE)
  have z: "(0::nat) < length ?g" by simp
  have row: "\<forall>j<length (?g ! 0).
                 (7 < ?g ! 0 ! j \<longrightarrow> out ! 0 ! j = Some (2 ^ bit_depth False - 1))
                 \<and> (?g ! 0 ! j = 7 \<longrightarrow> out ! 0 ! j = None)"
    using c [rule_format, OF z] by blast
  have "out ! 0 ! 0 = None"
    using row [rule_format, of 0] by simp
  moreover have "out ! 0 ! 1 = Some 65535"
    using row [rule_format, of 1] by (simp add: bit_depth_def)
  ultimately show ?thesis using h r l by auto
qed

subsection \<open>Strings and tokens\<close>

lemma find_from_sublist: "find_from i s sub \<noteq> - 1 \<longleftrightarrow> sublist sub s"
proof (induction s arbitrary: i)
  case Nil
  show ?case by simp
next
  case (Cons c cs)
  show ?case
    using Cons.IH [of "Suc i"] by (simp add: sublist_Cons_right)
qed

lemma str_find_sublist: "str_find s sub \<noteq> - 1 \<longleftrightarrow> sublist sub s"
  by (simp add: str_find_def find_from_sublist)

lemma first_camera_token_append:
  assumes "t = ''P'' \<or> t = ''C'' \<or> t = ''S''"
    and "\<forall>p\<in>set pre. p \<noteq> ''P'' \<and> p \<noteq> ''C'' \<and> p \<noteq> ''S''"
  shows "first_camera_token (pre @ t # post) = Some t"
  using assms by (induction pre) auto

lemma first_camera_token_None:
  "first_camera_token tokens = None
     \<longleftrightarrow> (\<forall>t\<in>set tokens. t \<noteq> ''P'' \<and> t \<noteq> ''C'' \<and> t \<noteq> ''S'')"
  by (induction tokens) auto

subsection \<open>C7: the input files and the names of the output files\<close>

text \<open>
  Claim C7. For every directory listing, \<^verbatim>\<open>curate_files\<close> selects exactly the entries
  whose name contains \<^verbatim>\<open>16BIT.PNG\<close>, in the order of the listing, and pairs each input
  with the output at the same index, whose name is derived by the fixed rule: in 8-bit
  mode \<^verbatim>\<open>16BIT\<close> is replaced by \<^verbatim>\<open>8BIT-N\<close>, otherwise \<^verbatim>\<open>16BIT.\<close> by \<^verbatim>\<open>16BIT-N.\<close>; each
  name is joined to its directory. So \<^verbatim>\<open>foo_16BIT.PNG\<close> becomes \<^verbatim>\<open>foo_8BIT-N.PNG\<close> in
  8-bit mode and \<^verbatim>\<open>foo_16BIT-N.PNG\<close> otherwise.
\<close>

theorem curate_files_pairs:
  assumes "listdir e input_directory fsys = Inr all_files"
  shows "curate_files e input_directory output_directory bit_8 fsys =
           Inr (map (os_path_join input_directory)
                  (filter (sublist ''16BIT.PNG'') all_files),
                map (\<lambda>x. os_path_join output_directory
                            (if bit_8 then str_replace x ''16BIT'' ''8BIT-N''
                             else str_replace x ''16BIT.'' ''16BIT-N.''))
                  (filter (sublist ''16BIT.PNG'') all_files))"
proof -
  have sel: "filter (\<lambda>x. str_find x ''16BIT.PNG'' \<noteq> - 1) all_files
      = filter (sublist ''16BIT.PNG'') all_files"
    by (simp only: str_find_sublist)
  show ?thesis
    unfolding curate_files_def assms sum.case Let_def sel
    by (simp add: comp_def)
qed

theorem curate_files_pairs_witness:
  "listdir (listing_ext [''foo_16BIT.PNG'', ''notes.txt'', ''bar_16BIT.PNG.bak'']) ''in'' ()
     = Inr [''foo_16BIT.PNG'', ''notes.txt'', ''bar_16BIT.PNG.bak'']
   \<and> curate_files (listing_ext [''foo_16BIT.PNG'', ''notes.txt'', ''bar_16BIT.PNG.bak''])
        ''in'' ''out'' True ()
     = Inr ([''in/foo_16BIT.PNG'', ''in/bar_16BIT.PNG.bak''],
            [''out/foo_8BIT-N.PNG'', ''out/bar_8BIT-N.PNG.bak''])
   \<and> curate_files (listing_ext [''foo_16BIT.PNG'', ''notes.txt'', ''bar_16BIT.PNG.bak''])
        ''in'' ''out'' False ()
     = Inr ([''in/foo_16BIT.PNG'', ''in/bar_16BIT.PNG.bak''],
            [''out/foo_16BIT-N.PNG'', ''out/bar_16BIT-N.PNG.bak''])"
proof -
  let ?names = "[''foo_16BIT.PNG'', ''notes.txt'', ''bar_16BIT.PNG.bak'']"
  have h: "listdir (listing_ext ?names) ''in'' () = Inr ?names"
    by (simp add: listing_ext_def)
  show ?thesis
    using h curate_files_pairs [OF h, of "''out''" True]
      curate_files_pairs [OF h, of "''out''" False]
    by (simp add: sublist_code os_path_join_def suffix_to_prefix)
qed

subsection \<open>The scaling policy\<close>

lemma parse_filename_token:
  assumes "first_camera_token (str_split (basename filename) CHR ''_'') = Some c"
  shows "parse_filename filename w = (Inr c, w)"
  by (simp add: parse_filename_def assms)

lemma parse_filename_no_token:
  assumes "first_camera_token (str_split (basename filename) CHR ''_'') = None"
  shows "parse_filename filename w =
     (Inl (UnboundLocalError ''camera_pos''),
      print_line (Text (''Warning: Bad filename format '' @ filename)) w)"
  by (simp add: parse_filename_def assms)

lemma get_scaling_values_no_token:
  assumes "first_camera_token (str_split (basename filename) CHR ''_'') = None"
  shows "get_scaling_values filename num_rows w =
     (Inl (UnboundLocalError ''camera_pos''),
      print_line (Text (''Warning: Bad filename format '' @ filename)) w)"
  by (simp add: get_scaling_values_def parse_filename_no_token [OF assms])

subsection \<open>C4: the table of bounds\<close>

text \<open>
  Claim C4. For every filename whose basename has a camera token (the first of its
  tokens between underscores that is \<^verbatim>\<open>P\<close>, \<^verbatim>\<open>C\<close> or \<^verbatim>\<open>S\<close>), \<^verbatim>\<open>get_scaling_values\<close>
  returns the bounds of the table: camera P with 512 rows gives (53500, 56500); P with
  480 rows gives (50500, 58500); P with any other number of rows prints the warning
  for an unknown camera size and gives the default (51000, 57500); C gives
  (50500, 58500) and S gives (51000, 57500), for any number of rows.
\<close>

theorem get_scaling_values_table:
  assumes "str_split (basename filename) CHR ''_'' = pre @ camera_pos # post"
    and "camera_pos = ''P'' \<or> camera_pos = ''C'' \<or> camera_pos = ''S''"
    and "\<forall>t\<in>set pre. t \<noteq> ''P'' \<and> t \<noteq> ''C'' \<and> t \<noteq> ''S''"
  shows "get_scaling_values filename num_rows w =
     (if camera_pos = ''P'' \<and> num_rows = 512 then (Inr (53500, 56500), w)
      else if camera_pos = ''P'' \<and> num_rows = 480 then (Inr (50500, 58500), w)
      else if camera_pos = ''P'' then
        (Inr (51000, 57500),
         print_line (Text (''Unknown camera size for file '' @ filename)) w)
      else if camera_pos = ''C'' then (Inr (50500, 58500), w)
      else (Inr (51000, 57500), w))"
proof -
  have "first_camera_token (str_split (basename filename) CHR ''_'') = Some camera_pos"
    unfolding assms(1) using assms(2,3) by (rule first_camera_token_append)
  then have "parse_filename filename w = (Inr camera_pos, w)"
    by (rule parse_filename_token)
  then show ?thesis
    by (simp add: get_scaling_values_def)
qed

theorem get_scaling_values_table_witness:
  "str_split (basename ''in/X_P_Y_16BIT.PNG'') CHR ''_'' = [''X''] @ ''P'' # [''Y'', ''16BIT.PNG'']
   \<and> (''P'' = ''P'' \<or> ''P'' = ''C'' \<or> ''P'' = ''S'')
   \<and> ''X'' \<noteq> ''P'' \<and> ''X'' \<noteq> ''C'' \<and> ''X'' \<noteq> ''S''
   \<and> get_scaling_values ''in/X_P_Y_16BIT.PNG'' 512 world0 = (Inr (53500, 56500), world0)
   \<and> get_scaling_values ''in/X_P_Y_16BIT.PNG'' 480 world0 = (Inr (50500, 58500), world0)
   \<and> get_scaling_values ''in/X_P_Y_16BIT.PNG'' 600 world0 =
       (Inr (51000, 57500),
        print_line (Text ''Unknown camera size for file in/X_P_Y_16BIT.PNG'') world0)"
proof -
  have h1: "str_split (basename ''in/X_P_Y_16BIT.PNG'') CHR ''_''
      = [''X''] @ ''P'' # [''Y'', ''16BIT.PNG'']"
    by (simp add: basename_def)
  have h2: "''P'' = ''P'' \<or> ''P'' = ''C'' \<or> ''P'' = ''S''" by simp
  have h3: "\<forall>t\<in>set [''X'']. t \<noteq> ''P'' \<and> t \<noteq> ''C'' \<and> t \<noteq> ''S''" by simp
  show ?thesis
    using h1 h2 h3
      get_scaling_values_table [OF h1 h2 h3, of 512 world0]
      get_scaling_values_table [OF h1 h2 h3, of 480 world0]
      get_scaling_values_table [OF h1 h2 h3, of 600 world0]
    by simp
qed

subsection \<open>C3: a filename without a camera token\<close>

text \<open>
  Claim C3 states that for a filename with no token \<^verbatim>\<open>P\<close>, \<^verbatim>\<open>C\<close> or \<^verbatim>\<open>S\<close> the resolver
  prints a warning and returns the default bounds (51000, 57500), and that the
  processing of such a file still succeeds. In the code the warning is printed, but
  \<^verbatim>\<open>camera_pos\<close> was never assigned and \<^verbatim>\<open>return camera_pos\<close> raises
  \<^verbatim>\<open>UnboundLocalError\<close>: \<^verbatim>\<open>get_scaling_values\<close> returns no bounds, and \<^verbatim>\<open>process_file\<close>
  catches the exception and returns \<^verbatim>\<open>False\<close>, although the file can be read and the
  result could be saved. The theorem evaluates the code at such a filename.
\<close>

theorem get_scaling_values_unparseable:
  "get_scaling_values ''in/foo_16BIT.PNG'' 512 world0 =
     (Inl (UnboundLocalError ''camera_pos''),
      print_line (Text ''Warning: Bad filename format in/foo_16BIT.PNG'') world0)
   \<and> image_open batch_ext ''in/foo_16BIT.PNG'' (fs world0) = Inr [[50500, 58500]]
   \<and> fst (image_save batch_ext True ''out/foo_8BIT-N.PNG'' [[Some 0, Some 255]] (fs world0)) = Inr ()
   \<and> fst (process_file batch_ext 0 1 True ''in/foo_16BIT.PNG'' ''out/foo_8BIT-N.PNG'' 0 world0)
       = False"
  by (simp add: get_scaling_values_def parse_filename_def basename_def process_file_def
      process_file_try_def report_progress_def batch_ext_def world0_def print_line_def)

subsection \<open>C8: the resolver is a function of its arguments\<close>

text \<open>
  Claim C8. \<^verbatim>\<open>get_scaling_values\<close> is deterministic and has no state: called with the same
  filename and number of rows in any two states, it returns the same result, and its
  only effect is to append to the standard output the same warning lines, of which
  there is at most one.
\<close>

theorem get_scaling_values_deterministic:
  "fst (get_scaling_values filename num_rows w1) = fst (get_scaling_values filename num_rows w2)
   \<and> (\<exists>warnings.
        (warnings = [] \<or> warnings = [Text (''Warning: Bad filename format '' @ filename)]
          \<or> warnings = [Text (''Unknown camera size for file '' @ filename)])
        \<and> snd (get_scaling_values filename num_rows w1) = w1\<lparr>stdout := stdout w1 @ warnings\<rparr>
        \<and> snd (get_scaling_values filename num_rows w2) = w2\<lparr>stdout := stdout w2 @ warnings\<rparr>)"
proof (cases "first_camera_token (str_split (basename filename) CHR ''_'')")
  case None
  show ?thesis
    by (intro conjI exI [of _ "[Text (''Warning: Bad filename format '' @ filename)]"])
      (simp_all add: get_scaling_values_no_token [OF None] print_line_def)
next
  case (Some c)
  have p: "parse_filename filename w = (Inr c, w)" for w :: "'x world"
    using Some by (rule parse_filename_token)
  show ?thesis
  proof (cases "c = ''P'' \<and> num_rows \<noteq> 512 \<and> num_rows \<noteq> 480")
    case True
    then show ?thesis
      by (intro conjI exI [of _ "[Text (''Unknown camera size for file '' @ filename)]"])
        (simp_all add: get_scaling_values_def p print_line_def)
  next
    case False
    then show ?thesis
      by (intro conjI exI [of _ "[]"])
        (auto simp: get_scaling_values_def p)
  qed
qed

theorem get_scaling_values_deterministic_witness:
  "fst (get_scaling_values ''in/X_C_Y_16BIT.PNG'' 512 world0)
     = fst (get_scaling_values ''in/X_C_Y_16BIT.PNG'' 512 (world0\<lparr>prev_time := 7\<rparr>))
   \<and> fst (get_scaling_values ''in/X_C_Y_16BIT.PNG'' 512 world0) = Inr (50500, 58500)"
proof -
  have "fst (get_scaling_values ''in/X_C_Y_16BIT.PNG'' 512 world0) = Inr (50500, 58500)"
    by (simp add: get_scaling_values_def parse_filename_def basename_def)
  then show ?thesis
    using get_scaling_values_deterministic
      [of "''in/X_C_Y_16BIT.PNG''" 512 world0 "world0\<lparr>prev_time := 7\<rparr>"]
    by simp
qed

subsection \<open>C9: the size of the worker pool\<close>

text \<open>
  Claim C9. For every number of cores \<open>n \<ge> 1\<close>, the pool that \<^verbatim>\<open>main\<close> creates has
  \<open>max 1 (n - 1)\<close> workers: at least one, also on a machine with a single core, so that
  the constructor of the pool does not fail.
\<close>

theorem num_workers_pool_size:
  assumes "1 \<le> cpu_count"
  shows "num_workers cpu_count = max 1 (cpu_count - 1)
         \<and> 1 \<le> num_workers cpu_count
         \<and> (\<exists>results w'. pool_starmap (num_workers cpu_count) f tasks w = (Inr results, w'))"
proof -
  have n: "num_workers cpu_count = max 1 (cpu_count - 1)"
    using assms by (simp add: num_workers_def max_def)
  then have "\<not> num_workers cpu_count < 1" by simp
  then have "\<exists>results w'. pool_starmap (num_workers cpu_count) f tasks w = (Inr results, w')"
    by (simp add: pool_starmap_def split: prod.split)
  with n show ?thesis by simp
qed

theorem num_workers_pool_size_witness:
  "(1::int) \<le> 1 \<and> num_workers 1 = 1 \<and> (1::int) \<le> 8 \<and> num_workers 8 = 7"
proof -
  have h1: "(1::int) \<le> 1" and h8: "(1::int) \<le> 8" by simp_all
  show ?thesis
    using num_workers_pool_size [OF h1, THEN conjunct1]
      num_workers_pool_size [OF h8, THEN conjunct1] by simp
qed

subsection \<open>The worker and the batch\<close>

lemma print_line_stdout: "stdout (print_line l w) = stdout w @ [l]"
  by (simp add: print_line_def)

lemma print_line_fs: "fs (print_line l w) = fs w"
  by (simp add: print_line_def)

lemma report_progress_fs: "fs (report_progress t n index w) = fs w"
  by (simp add: report_progress_def Let_def print_line_def)

lemma report_progress_stdout: "prefix (stdout w) (stdout (report_progress t n index w))"
  by (simp add: report_progress_def Let_def print_line_def)

lemma get_scaling_values_fst:
  "fst (get_scaling_values filename num_rows w) = fst (get_scaling_values filename num_rows w')"
  by (simp add: get_scaling_values_def parse_filename_def split: option.split)

lemma get_scaling_values_fs:
  "fs (snd (get_scaling_values filename num_rows w)) = fs w"
  by (simp add: get_scaling_values_def parse_filename_def print_line_def split: option.split)

lemma get_scaling_values_stdout:
  "prefix (stdout w) (stdout (snd (get_scaling_values filename num_rows w)))"
  by (simp add: get_scaling_values_def parse_filename_def print_line_def split: option.split)

lemma process_file_try_stdout:
  "prefix (stdout w) (stdout (snd (process_file_try e bit_8 in_file output_file w)))"
proof (cases "image_open e in_file (fs w)")
  case (Inl err)
  then show ?thesis by (simp add: process_file_try_def)
next
  case (Inr cur_data)
  obtain r w1 where g: "get_scaling_values in_file (int (length cur_data)) w = (r, w1)"
    by (cases "get_scaling_values in_file (int (length cur_data)) w")
  have p: "prefix (stdout w) (stdout w1)"
    using get_scaling_values_stdout [of w in_file "int (length cur_data)"] g by simp
  show ?thesis
    using p by (simp add: process_file_try_def Inr g lin_normalize_image_explicit
        split: sum.split prod.split)
qed

lemma process_file_verdict:
  "process_file e t n bit_8 in_file output_file index w =
     (case process_file_try e bit_8 in_file output_file (report_progress t n index w) of
        (Inr u, w1) \<Rightarrow> (True, w1)
      | (Inl err, w1) \<Rightarrow>
          (False, w1\<lparr>stdout := stdout w1 @ [ErrorText err, Text (''Unable to load '' @ in_file)]\<rparr>))"
  by (simp add: process_file_def print_line_def split: prod.split sum.split)

lemma process_file_stdout:
  "prefix (stdout w) (stdout (snd (process_file e t n bit_8 in_file output_file index w)))"
proof -
  let ?w0 = "report_progress t n index w"
  obtain r w1 where q: "process_file_try e bit_8 in_file output_file ?w0 = (r, w1)"
    by (cases "process_file_try e bit_8 in_file output_file ?w0")
  have "prefix (stdout ?w0) (stdout w1)"
    using process_file_try_stdout [of ?w0 e bit_8 in_file output_file] q by simp
  with report_progress_stdout [of w t n index] have p: "prefix (stdout w) (stdout w1)"
    by (rule prefix_order.trans)
  show ?thesis
  proof (cases r)
    case (Inl err)
    have "prefix (stdout w1)
        (stdout w1 @ [ErrorText err, Text (''Unable to load '' @ in_file)])"
      by simp
    with p have "prefix (stdout w)
        (stdout w1 @ [ErrorText err, Text (''Unable to load '' @ in_file)])"
      by (rule prefix_order.trans)
    then show ?thesis by (simp add: process_file_verdict q Inl)
  next
    case (Inr u)
    then show ?thesis using p by (simp add: process_file_verdict q)
  qed
qed

lemma process_file_try_open_fails:
  assumes "image_open e in_file (fs w) = Inl err"
  shows "process_file_try e bit_8 in_file output_file w = (Inl err, w)"
  by (simp add: process_file_try_def assms)

lemma process_file_try_save_fails:
  assumes "image_open e in_file (fs w) = Inr cur_data"
    and "fst (get_scaling_values in_file (int (length cur_data)) w) = Inr (bottom, topv)"
    and "lin_normalize_image cur_data bit_8 (Some bottom) (Some topv) = Inr normalized"
    and "fst (image_save e bit_8 output_file normalized (fs w)) = Inl err"
  shows "fst (process_file_try e bit_8 in_file output_file w) = Inl err"
proof -
  obtain w1 where g: "get_scaling_values in_file (int (length cur_data)) w = (Inr (bottom, topv), w1)"
    using assms(2) by (cases "get_scaling_values in_file (int (length cur_data)) w") simp
  have f: "fs w1 = fs w"
    using get_scaling_values_fs [of in_file "int (length cur_data)" w] g by simp
  obtain r fsys where sv: "image_save e bit_8 output_file normalized (fs w) = (r, fsys)"
    by (cases "image_save e bit_8 output_file normalized (fs w)")
  then have "r = Inl err" using assms(4) by simp
  then show ?thesis
    by (simp add: process_file_try_def assms(1,3) g f sv)
qed

lemma starmap_length: "length (fst (starmap f ts w)) = length ts"
proof (induction ts arbitrary: w)
  case Nil
  show ?case by simp
next
  case (Cons t ts)
  obtain r w1 where h: "f t w = (r, w1)" by (cases "f t w")
  obtain rs w2 where s: "starmap f ts w1 = (rs, w2)" by (cases "starmap f ts w1")
  have "length rs = length ts" using Cons.IH [of w1] s by simp
  then show ?case by (simp add: h s)
qed

lemma starmap_nth:
  "i < length ts \<Longrightarrow> \<exists>wi. fst (starmap f ts w) ! i = fst (f (ts ! i) wi)"
proof (induction ts arbitrary: w i)
  case Nil
  then show ?case by simp
next
  case (Cons t ts)
  obtain r w1 where h: "f t w = (r, w1)" by (cases "f t w")
  obtain rs w2 where s: "starmap f ts w1 = (rs, w2)" by (cases "starmap f ts w1")
  show ?case
  proof (cases i)
    case 0
    have "fst (starmap f (t # ts) w) ! 0 = fst (f ((t # ts) ! 0) w)"
      by (simp add: h s)
    then show ?thesis unfolding 0 by blast
  next
    case (Suc k)
    then have "k < length ts" using Cons.prems by simp
    then obtain wi where "fst (starmap f ts w1) ! k = fst (f (ts ! k) wi)"
      using Cons.IH by blast
    then have "fst (starmap f (t # ts) w) ! Suc k = fst (f ((t # ts) ! Suc k) wi)"
      by (simp add: h s)
    then show ?thesis unfolding Suc by blast
  qed
qed

lemma starmap_stdout:
  assumes "\<And>t w. prefix (stdout w) (stdout (snd (f t w)))"
  shows "prefix (stdout w) (stdout (snd (starmap f ts w)))"
proof (induction ts arbitrary: w)
  case Nil
  show ?case by simp
next
  case (Cons t ts)
  obtain r w1 where h: "f t w = (r, w1)" by (cases "f t w")
  obtain rs w2 where s: "starmap f ts w1 = (rs, w2)" by (cases "starmap f ts w1")
  have "prefix (stdout w) (stdout w1)" using assms [of w t] h by simp
  moreover have "prefix (stdout w1) (stdout w2)" using Cons.IH [of w1] s by simp
  ultimately have "prefix (stdout w) (stdout w2)" by (rule prefix_order.trans)
  then show ?case by (simp add: h s)
qed

lemma task_list_length: "length (task_list input_files output_files) = length input_files"
  by (simp add: task_list_def)

lemma task_list_nth:
  "i < length input_files \<Longrightarrow>
     task_list input_files output_files ! i = (input_files ! i, output_files ! i, int i)"
  by (simp add: task_list_def nth_enumerate_eq)

lemma curate_files_lengths:
  assumes "listdir e input_directory fsys = Inr all_files"
  shows "\<exists>ins outs. curate_files e input_directory output_directory bit_8 fsys = Inr (ins, outs)
           \<and> length ins = length (filter (sublist ''16BIT.PNG'') all_files)
           \<and> length outs = length ins"
  by (simp add: curate_files_def assms Let_def str_find_sublist)

lemma process_file_failures:
  "\<exists>ok w'. process_file e cur_time len_inputs bit_8 in_file output_file index w = (ok, w')
     \<and> (ok \<longleftrightarrow> (\<exists>u w1. process_file_try e bit_8 in_file output_file
                           (report_progress cur_time len_inputs index w) = (Inr u, w1)))
     \<and> (\<forall>err w1. process_file_try e bit_8 in_file output_file
                    (report_progress cur_time len_inputs index w) = (Inl err, w1)
           \<longrightarrow> \<not> ok
               \<and> stdout w' = stdout w1 @ [ErrorText err, Text (''Unable to load '' @ in_file)])
     \<and> (\<forall>err. image_open e in_file (fs w) = Inl err \<longrightarrow> \<not> ok)
     \<and> (\<forall>cur_data bottom topv normalized err.
           image_open e in_file (fs w) = Inr cur_data
           \<and> fst (get_scaling_values in_file (int (length cur_data)) w) = Inr (bottom, topv)
           \<and> lin_normalize_image cur_data bit_8 (Some bottom) (Some topv) = Inr normalized
           \<and> fst (image_save e bit_8 output_file normalized (fs w)) = Inl err
           \<longrightarrow> \<not> ok)"
proof -
  let ?w0 = "report_progress cur_time len_inputs index w"
  obtain r w1 where q: "process_file_try e bit_8 in_file output_file ?w0 = (r, w1)"
    by (cases "process_file_try e bit_8 in_file output_file ?w0")
  have f3: "r = Inl err" if "image_open e in_file (fs w) = Inl err" for err
  proof -
    have "image_open e in_file (fs ?w0) = Inl err"
      using that by (simp add: report_progress_fs)
    then have "process_file_try e bit_8 in_file output_file ?w0 = (Inl err, ?w0)"
      by (rule process_file_try_open_fails)
    then show ?thesis using q by simp
  qed
  have f4: "r = Inl err"
    if "image_open e in_file (fs w) = Inr cur_data"
      and "fst (get_scaling_values in_file (int (length cur_data)) w) = Inr (bottom, topv)"
      and "lin_normalize_image cur_data bit_8 (Some bottom) (Some topv) = Inr normalized"
      and "fst (image_save e bit_8 output_file normalized (fs w)) = Inl err"
    for cur_data bottom topv normalized err
  proof -
    have a: "image_open e in_file (fs ?w0) = Inr cur_data"
      using that(1) by (simp add: report_progress_fs)
    have b: "fst (get_scaling_values in_file (int (length cur_data)) ?w0) = Inr (bottom, topv)"
      using that(2) get_scaling_values_fst [of in_file "int (length cur_data)" ?w0 w] by simp
    have c: "fst (image_save e bit_8 output_file normalized (fs ?w0)) = Inl err"
      using that(4) by (simp add: report_progress_fs)
    have "fst (process_file_try e bit_8 in_file output_file ?w0) = Inl err"
      using a b that(3) c by (rule process_file_try_save_fails)
    then show ?thesis using q by simp
  qed
  show ?thesis
  proof (cases r)
    case (Inl err)
    have "process_file e cur_time len_inputs bit_8 in_file output_file index w =
        (False, w1\<lparr>stdout := stdout w1 @ [ErrorText err, Text (''Unable to load '' @ in_file)]\<rparr>)"
      by (simp add: process_file_verdict q Inl)
    then show ?thesis
      by (intro exI [of _ False]
            exI [of _ "w1\<lparr>stdout := stdout w1 @ [ErrorText err, Text (''Unable to load '' @ in_file)]\<rparr>"])
        (simp add: q Inl)
  next
    case (Inr u)
    have "process_file e cur_time len_inputs bit_8 in_file output_file index w = (True, w1)"
      by (simp add: process_file_verdict q Inr)
    moreover have "\<forall>err. image_open e in_file (fs w) \<noteq> Inl err"
      using f3 Inr by auto
    moreover have "\<forall>cur_data bottom topv normalized err.
           \<not> (image_open e in_file (fs w) = Inr cur_data
           \<and> fst (get_scaling_values in_file (int (length cur_data)) w) = Inr (bottom, topv)
           \<and> lin_normalize_image cur_data bit_8 (Some bottom) (Some topv) = Inr normalized
           \<and> fst (image_save e bit_8 output_file normalized (fs w)) = Inl err)"
      using f4 Inr by blast
    ultimately show ?thesis
      by (intro exI [of _ True] exI [of _ w1]) (simp add: q Inr)
  qed
qed

lemma main_summary:
  assumes "listdir e input_directory (fs w) = Inr all_files" and "1 \<le> cpu_count"
  shows "\<exists>ins outs results w3.
           curate_files e input_directory output_directory bit_8 (fs w) = Inr (ins, outs)
         \<and> main_results e cpu_count start_time clock input_directory output_directory bit_8 w
             = (Inr results, w3)
         \<and> main e cpu_count start_time clock input_directory output_directory bit_8 w
             = (Inr (), print_line (CompletedFiles (length (filter (\<lambda>x. x) results)))
                          (print_line (Text ''Done!'') w3))
         \<and> length results = length (filter (sublist ''16BIT.PNG'') all_files)
         \<and> FoundFiles (length results) \<in> set (stdout w3)
         \<and> length (filter (\<lambda>x. x) results) \<le> length results
         \<and> (\<forall>i<length results. \<exists>wi. results ! i =
               fst (process_file e (clock (int i)) (int (length results)) bit_8
                      (ins ! i) (outs ! i) (int i) wi))"
proof -
  let ?w1 = "print_line (Text (''bit_8: '' @ (if bit_8 then ''True'' else ''False'')))
                 (print_line (Text (''Output directory: '' @ output_directory))
                    (print_line (Text (''Input directory: '' @ input_directory)) w))"
  have fs1: "fs ?w1 = fs w" by (simp add: print_line_fs)
  obtain ins outs where
    cf: "curate_files e input_directory output_directory bit_8 (fs w) = Inr (ins, outs)"
    and li: "length ins = length (filter (sublist ''16BIT.PNG'') all_files)"
    using curate_files_lengths [OF assms(1), of output_directory bit_8] by blast
  let ?w2 = "(print_line (FoundFiles (length ins)) ?w1)\<lparr>prev_time := start_time\<rparr>"
  let ?F = "\<lambda>(in_file, output_file, index).
              process_file e (clock index) (int (length ins)) bit_8 in_file output_file index"
  obtain rs w3 where sm: "starmap ?F (task_list ins outs) ?w2 = (rs, w3)"
    by (cases "starmap ?F (task_list ins outs) ?w2")
  have nw: "\<not> num_workers cpu_count < 1"
    using assms(2) by (simp add: num_workers_def)
  have mr: "main_results e cpu_count start_time clock input_directory output_directory bit_8 w
      = (Inr rs, w3)"
    unfolding main_results_def Let_def fs1 cf
    by (simp only: sum.case prod.case pool_starmap_def nw if_False sm)
  have mn: "main e cpu_count start_time clock input_directory output_directory bit_8 w
      = (Inr (), print_line (CompletedFiles (length (filter (\<lambda>x. x) rs)))
                   (print_line (Text ''Done!'') w3))"
    by (simp add: main_def mr)
  have lr: "length rs = length ins"
    using starmap_length [of ?F "task_list ins outs" ?w2] sm by (simp add: task_list_length)
  have "prefix (stdout w) (stdout (snd (?F t w)))" for t and w :: "'a world"
    by (cases t) (simp add: process_file_stdout)
  then have "prefix (stdout ?w2) (stdout (snd (starmap ?F (task_list ins outs) ?w2)))"
    by (rule starmap_stdout)
  then have "set (stdout ?w2) \<subseteq> set (stdout w3)"
    using sm by (simp add: set_mono_prefix)
  moreover have "FoundFiles (length ins) \<in> set (stdout ?w2)"
    by (simp add: print_line_stdout)
  ultimately have ff: "FoundFiles (length rs) \<in> set (stdout w3)"
    using lr by auto
  have nth: "\<exists>wi. rs ! i = fst (process_file e (clock (int i)) (int (length rs)) bit_8
                      (ins ! i) (outs ! i) (int i) wi)" if "i < length rs" for i
  proof -
    have i: "i < length ins" using that lr by simp
    then have "i < length (task_list ins outs)" by (simp add: task_list_length)
    then obtain wi where "fst (starmap ?F (task_list ins outs) ?w2) ! i
        = fst (?F (task_list ins outs ! i) wi)"
      using starmap_nth [of i "task_list ins outs" ?F ?w2] by blast
    then have "rs ! i = fst (process_file e (clock (int i)) (int (length rs)) bit_8
                      (ins ! i) (outs ! i) (int i) wi)"
      using sm by (simp add: task_list_nth [OF i] lr)
    then show ?thesis by blast
  qed
  have every: "\<forall>i<length rs. \<exists>wi. rs ! i =
      fst (process_file e (clock (int i)) (int (length rs)) bit_8 (ins ! i) (outs ! i) (int i) wi)"
    using nth by blast
  have le: "length (filter (\<lambda>x. x) rs) \<le> length rs"
    by (rule length_filter_le)
  have total: "length rs = length (filter (sublist ''16BIT.PNG'') all_files)"
    using lr li by simp
  show ?thesis
    using cf mr mn total ff le every by blast
qed

subsection \<open>C5: failures stay inside the worker\<close>

text \<open>
  Claim C5. Every failure while loading, normalizing or saving a single file inside
  \<^verbatim>\<open>process_file\<close> is caught, printed together with the path of the file, and turned
  into the result \<^verbatim>\<open>False\<close>: \<^verbatim>\<open>process_file\<close> always returns a boolean, which is true
  exactly when the body of its \<^verbatim>\<open>try\<close> statement succeeds. When the directory can be
  listed (and there is at least one core), \<^verbatim>\<open>main\<close> does not abort: it has one result
  for each entry whose name contains \<^verbatim>\<open>16BIT.PNG\<close>, each result being the verdict of
  \<^verbatim>\<open>process_file\<close> on that task; it prints that number as the number of files found and
  the number of true results as the number of files converted. With five matching
  files of which one cannot be read, the total is 5 and 4 have succeeded.
\<close>

theorem process_file_contains_failures:
  "(\<exists>ok w'. process_file e cur_time len_inputs bit_8 in_file output_file index w = (ok, w')
     \<and> (ok \<longleftrightarrow> (\<exists>u w1. process_file_try e bit_8 in_file output_file
                           (report_progress cur_time len_inputs index w) = (Inr u, w1)))
     \<and> (\<forall>err w1. process_file_try e bit_8 in_file output_file
                    (report_progress cur_time len_inputs index w) = (Inl err, w1)
           \<longrightarrow> \<not> ok
               \<and> stdout w' = stdout w1 @ [ErrorText err, Text (''Unable to load '' @ in_file)])
     \<and> (\<forall>err. image_open e in_file (fs w) = Inl err \<longrightarrow> \<not> ok)
     \<and> (\<forall>cur_data bottom topv normalized err.
           image_open e in_file (fs w) = Inr cur_data
           \<and> fst (get_scaling_values in_file (int (length cur_data)) w) = Inr (bottom, topv)
           \<and> lin_normalize_image cur_data bit_8 (Some bottom) (Some topv) = Inr normalized
           \<and> fst (image_save e bit_8 output_file normalized (fs w)) = Inl err
           \<longrightarrow> \<not> ok))
   \<and> (listdir e input_directory (fs w) = Inr all_files \<and> 1 \<le> cpu_count \<longrightarrow>
        (\<exists>ins outs results w3.
           curate_files e input_directory output_directory bit_8 (fs w) = Inr (ins, outs)
         \<and> main_results e cpu_count start_time clock input_directory output_directory bit_8 w
             = (Inr results, w3)
         \<and> main e cpu_count start_time clock input_directory output_directory bit_8 w
             = (Inr (), print_line (CompletedFiles (length (filter (\<lambda>x. x) results)))
                          (print_line (Text ''Done!'') w3))
         \<and> length results = length (filter (sublist ''16BIT.PNG'') all_files)
         \<and> FoundFiles (length results) \<in> set (stdout w3)
         \<and> length (filter (\<lambda>x. x) results) \<le> length results
         \<and> (\<forall>i<length results. \<exists>wi. results ! i =
               fst (process_file e (clock (int i)) (int (length results)) bit_8
                      (ins ! i) (outs ! i) (int i) wi))))"
proof (rule conjI)
  show "\<exists>ok w'. process_file e cur_time len_inputs bit_8 in_file output_file index w = (ok, w')
     \<and> (ok \<longleftrightarrow> (\<exists>u w1. process_file_try e bit_8 in_file output_file
                           (report_progress cur_time len_inputs index w) = (Inr u, w1)))
     \<and> (\<forall>err w1. process_file_try e bit_8 in_file output_file
                    (report_progress cur_time len_inputs index w) = (Inl err, w1)
           \<longrightarrow> \<not> ok
               \<and> stdout w' = stdout w1 @ [ErrorText err, Text (''Unable to load '' @ in_file)])
     \<and> (\<forall>err. image_open e in_file (fs w) = Inl err \<longrightarrow> \<not> ok)
     \<and> (\<forall>cur_data bottom topv normalized err.
           image_open e in_file (fs w) = Inr cur_data
           \<and> fst (get_scaling_values in_file (int (length cur_data)) w) = Inr (bottom, topv)
           \<and> lin_normalize_image cur_data bit_8 (Some bottom) (Some topv) = Inr normalized
           \<and> fst (image_save e bit_8 output_file normalized (fs w)) = Inl err
           \<longrightarrow> \<not> ok)"
    by (rule process_file_failures)
next
  show "listdir e input_directory (fs w) = Inr all_files \<and> 1 \<le> cpu_count \<longrightarrow>
        (\<exists>ins outs results w3.
           curate_files e input_directory output_directory bit_8 (fs w) = Inr (ins, outs)
         \<and> main_results e cpu_count start_time clock input_directory output_directory bit_8 w
             = (Inr results, w3)
         \<and> main e cpu_count start_time clock input_directory output_directory bit_8 w
             = (Inr (), print_line (CompletedFiles (length (filter (\<lambda>x. x) results)))
                          (print_line (Text ''Done!'') w3))
         \<and> length results = length (filter (sublist ''16BIT.PNG'') all_files)
         \<and> FoundFiles (length results) \<in> set (stdout w3)
         \<and> length (filter (\<lambda>x. x) results) \<le> length results
         \<and> (\<forall>i<length results. \<exists>wi. results ! i =
               fst (process_file e (clock (int i)) (int (length results)) bit_8
                      (ins ! i) (outs ! i) (int i) wi)))"
  proof
    assume "listdir e input_directory (fs w) = Inr all_files \<and> 1 \<le> cpu_count"
    then have "listdir e input_directory (fs w) = Inr all_files" and "1 \<le> cpu_count"
      by simp_all
    then show "\<exists>ins outs results w3.
           curate_files e input_directory output_directory bit_8 (fs w) = Inr (ins, outs)
         \<and> main_results e cpu_count start_time clock input_directory output_directory bit_8 w
             = (Inr results, w3)
         \<and> main e cpu_count start_time clock input_directory output_directory bit_8 w
             = (Inr (), print_line (CompletedFiles (length (filter (\<lambda>x. x) results)))
                          (print_line (Text ''Done!'') w3))
         \<and> length results = length (filter (sublist ''16BIT.PNG'') all_files)
         \<and> FoundFiles (length results) \<in> set (stdout w3)
         \<and> length (filter (\<lambda>x. x) results) \<le> length results
         \<and> (\<forall>i<length results. \<exists>wi. results ! i =
               fst (process_file e (clock (int i)) (int (length results)) bit_8
                      (ins ! i) (outs ! i) (int i) wi))"
      by (rule main_summary)
  qed
qed

lemma batch_listing:
  "listdir batch_ext ''in'' (fs world0) =
     Inr [''a_C_1_16BIT.PNG'', ''b_C_2_16BIT.PNG'', ''readme.txt'',
          ''c_C_3_16BIT.PNG'', ''d_S_4_16BIT.PNG'', ''e_C_5_16BIT.PNG'']"
  by (simp add: batch_ext_def)

lemma batch_results:
  "fst (main_results batch_ext 4 0 (\<lambda>i. 0) ''in'' ''out'' True world0)
     = Inr [True, True, False, True, True]"
  by code_simp

lemma batch_output:
  "main batch_ext 4 0 (\<lambda>i. 0) ''in'' ''out'' True world0 =
     (Inr (),
      \<lparr>stdout =
         [Text ''Input directory: in'', Text ''Output directory: out'', Text ''bit_8: True'',
          FoundFiles 5, Progress 0 5 0 0,
          ErrorText (ExternalError ''cannot identify image file''),
          Text ''Unable to load in/c_C_3_16BIT.PNG'', Text ''Done!'', CompletedFiles 4],
       prev_time = 0, fs = ()\<rparr>)"
  by code_simp

lemma batch_unreadable:
  "fst (process_file batch_ext 0 5 True ''in/c_C_3_16BIT.PNG'' ''out/c_C_3_8BIT-N.PNG'' 3 world0)
     = False"
  by code_simp

theorem process_file_contains_failures_witness:
  "listdir batch_ext ''in'' (fs world0) =
     Inr [''a_C_1_16BIT.PNG'', ''b_C_2_16BIT.PNG'', ''readme.txt'',
          ''c_C_3_16BIT.PNG'', ''d_S_4_16BIT.PNG'', ''e_C_5_16BIT.PNG'']
   \<and> (1::int) \<le> 4
   \<and> image_open batch_ext ''in/c_C_3_16BIT.PNG'' (fs world0)
       = Inl (ExternalError ''cannot identify image file'')
   \<and> fst (process_file batch_ext 0 5 True ''in/c_C_3_16BIT.PNG'' ''out/c_C_3_8BIT-N.PNG'' 3 world0)
       = False
   \<and> (\<exists>results w3.
         main_results batch_ext 4 0 (\<lambda>i. 0) ''in'' ''out'' True world0 = (Inr results, w3)
       \<and> results = [True, True, False, True, True]
       \<and> length results = 5 \<and> length (filter (\<lambda>x. x) results) = 4
       \<and> FoundFiles 5 \<in> set (stdout w3)
       \<and> main batch_ext 4 0 (\<lambda>i. 0) ''in'' ''out'' True world0
           = (Inr (), print_line (CompletedFiles 4) (print_line (Text ''Done!'') w3)))"
proof -
  note t = process_file_contains_failures
    [of batch_ext 0 5 True "''in/c_C_3_16BIT.PNG''" "''out/c_C_3_8BIT-N.PNG''" 3 world0
      "''in''" "[''a_C_1_16BIT.PNG'', ''b_C_2_16BIT.PNG'', ''readme.txt'',
          ''c_C_3_16BIT.PNG'', ''d_S_4_16BIT.PNG'', ''e_C_5_16BIT.PNG'']" 4 "''out''" 0 "\<lambda>i. 0"]
  have h: "listdir batch_ext ''in'' (fs world0) =
     Inr [''a_C_1_16BIT.PNG'', ''b_C_2_16BIT.PNG'', ''readme.txt'',
          ''c_C_3_16BIT.PNG'', ''d_S_4_16BIT.PNG'', ''e_C_5_16BIT.PNG''] \<and> (1::int) \<le> 4"
    using batch_listing by simp
  have o: "image_open batch_ext ''in/c_C_3_16BIT.PNG'' (fs world0)
       = Inl (ExternalError ''cannot identify image file'')"
    by (simp add: batch_ext_def)
  from t [THEN conjunct1] o
  have u: "fst (process_file batch_ext 0 5 True ''in/c_C_3_16BIT.PNG'' ''out/c_C_3_8BIT-N.PNG'' 3 world0)
       = False"
    by fastforce
  from t [THEN conjunct2, THEN mp, OF h]
  obtain ins outs results w3 where
    mr: "main_results batch_ext 4 0 (\<lambda>i. 0) ''in'' ''out'' True world0 = (Inr results, w3)"
    and mn: "main batch_ext 4 0 (\<lambda>i. 0) ''in'' ''out'' True world0
             = (Inr (), print_line (CompletedFiles (length (filter (\<lambda>x. x) results)))
                          (print_line (Text ''Done!'') w3))"
    and ff: "FoundFiles (length results) \<in> set (stdout w3)"
    by blast
  have r: "results = [True, True, False, True, True]"
    using mr batch_results by simp
  show ?thesis
    using h o u mr mn ff unfolding r by (simp add: eval_nat_numeral)
qed

end
